theory Spec2Isabelle
  imports Complex_Main
begin

section \<open>The Cornerstone property valuator\<close>

text \<open>
  A shallow embedding of the prediction form component: the form state holder
  (\<open>useCornerstoneFormState\<close>), the pricing hook (\<open>usePricingCalculation\<close>) and the
  event handlers and submit control of \<open>PredictionForm\<close>.

  Conventions of the embedding.
  \<^item> A JavaScript string is a \<open>string\<close>: each character stands for the code unit of
    the same number, so code units from 256 on (among them the white space characters
    beyond \<open>U+00A0\<close>) are outside the model.
  \<^item> A JavaScript Number is a \<open>jsnum\<close>: \<open>NaN\<close>, the two infinities, or a finite value
    carried as an exact real.  Rounding to binary64, overflow of finite arithmetic to
    an infinity and the sign of zero are not part of the model.
  \<^item> React state is an explicit record; a state setter is a record update; the
    callback handed to \<open>setTimeout\<close> is a pending entry that a later event runs.
\<close>

subsection \<open>Numbers and values of the language\<close>

datatype jsnum = NaN | PInf | NInf | Fin real

datatype jsval = JSUndefined | JSNumber jsnum | JSObject string

text \<open>Addition, subtraction and multiplication of Numbers; a \<open>NaN\<close> operand gives \<open>NaN\<close>.\<close>

fun js_neg :: "jsnum \<Rightarrow> jsnum" where
  "js_neg NaN = NaN"
| "js_neg PInf = NInf"
| "js_neg NInf = PInf"
| "js_neg (Fin x) = Fin (- x)"

fun js_add :: "jsnum \<Rightarrow> jsnum \<Rightarrow> jsnum" where
  "js_add NaN _ = NaN"
| "js_add _ NaN = NaN"
| "js_add PInf NInf = NaN"
| "js_add NInf PInf = NaN"
| "js_add PInf _ = PInf"
| "js_add _ PInf = PInf"
| "js_add NInf _ = NInf"
| "js_add _ NInf = NInf"
| "js_add (Fin x) (Fin y) = Fin (x + y)"

definition js_sub :: "jsnum \<Rightarrow> jsnum \<Rightarrow> jsnum" where
  "js_sub a b = js_add a (js_neg b)"

fun js_sign :: "jsnum \<Rightarrow> int" where
  "js_sign NaN = 0"
| "js_sign PInf = 1"
| "js_sign NInf = - 1"
| "js_sign (Fin x) = (if x < 0 then - 1 else if x = 0 then 0 else 1)"

fun js_mul :: "jsnum \<Rightarrow> jsnum \<Rightarrow> jsnum" where
  "js_mul NaN _ = NaN"
| "js_mul _ NaN = NaN"
| "js_mul (Fin x) (Fin y) = Fin (x * y)"
| "js_mul a b =
     (let s = js_sign a * js_sign b
      in if s = 0 then NaN else if s < 0 then NInf else PInf)"

text \<open>\<open>Math.max\<close> of two arguments and \<open>Math.round\<close> (a tie goes up).\<close>

fun Math_max :: "jsnum \<Rightarrow> jsnum \<Rightarrow> jsnum" where
  "Math_max NaN _ = NaN"
| "Math_max _ NaN = NaN"
| "Math_max PInf _ = PInf"
| "Math_max _ PInf = PInf"
| "Math_max NInf b = b"
| "Math_max a NInf = a"
| "Math_max (Fin x) (Fin y) = Fin (max x y)"

fun Math_round :: "jsnum \<Rightarrow> jsnum" where
  "Math_round (Fin x) = Fin (of_int \<lfloor>x + 1 / 2\<rfloor>)"
| "Math_round a = a"

text \<open>
  Truthiness, the operator \<open>||\<close> and the conversion that \<open>*\<close> applies to an operand.
  The only objects that occur are built-in functions and \<open>Object.prototype\<close>, whose
  conversion to a primitive is a string that is not a numeric literal.
\<close>

fun truthy :: "jsval \<Rightarrow> bool" where
  "truthy JSUndefined = False"
| "truthy (JSNumber NaN) = False"
| "truthy (JSNumber (Fin x)) = (x \<noteq> 0)"
| "truthy (JSNumber _) = True"
| "truthy (JSObject _) = True"

definition js_or :: "jsval \<Rightarrow> jsval \<Rightarrow> jsval" where
  "js_or a b = (if truthy a then a else b)"

fun ToNumber :: "jsval \<Rightarrow> jsnum" where
  "ToNumber JSUndefined = NaN"
| "ToNumber (JSNumber n) = n"
| "ToNumber (JSObject _) = NaN"

subsection \<open>The built-in parseFloat\<close>

text \<open>
  \<open>parseFloat\<close> drops leading white space and converts the longest prefix that is a
  decimal literal: an optional sign, then \<open>Infinity\<close>, or digits with an optional
  fraction, or a fraction alone, each of the last two with an optional exponent.
  Without such a prefix the result is \<open>NaN\<close>.
\<close>

definition isWhiteSpace :: "char \<Rightarrow> bool" where
  "isWhiteSpace c =
     (c \<in> set [CHR 0x09, CHR 0x0A, CHR 0x0B, CHR 0x0C, CHR 0x0D, CHR '' '', CHR 0xA0])"

definition isDigit :: "char \<Rightarrow> bool" where
  "isDigit c = (c \<in> set ''0123456789'')"

definition digitValue :: "char \<Rightarrow> nat" where
  "digitValue c = of_char c - 48"

definition digitsValue :: "string \<Rightarrow> nat" where
  "digitsValue ds = foldl (\<lambda>acc c. 10 * acc + digitValue c) 0 ds"

definition splitSign :: "string \<Rightarrow> bool \<times> string" where
  "splitSign t =
     (case t of
        [] \<Rightarrow> (False, [])
      | c # r \<Rightarrow> if c = CHR ''-'' then (True, r)
                 else if c = CHR ''+'' then (False, r) else (False, t))"

definition exponentPart :: "string \<Rightarrow> int" where
  "exponentPart r =
     (case r of
        [] \<Rightarrow> 0
      | c # r' \<Rightarrow>
          if c = CHR ''e'' \<or> c = CHR ''E'' then
            (let (neg, d) = splitSign r'; ds = takeWhile isDigit d
             in if ds = [] then 0
                else if neg then - int (digitsValue ds) else int (digitsValue ds))
          else 0)"

definition scale10 :: "real \<Rightarrow> int \<Rightarrow> real" where
  "scale10 m e = (if 0 \<le> e then m * 10 ^ nat e else m / 10 ^ nat (- e))"

definition strUnsignedDecimal :: "string \<Rightarrow> real option" where
  "strUnsignedDecimal u =
     (let ip = takeWhile isDigit u; r1 = dropWhile isDigit u;
          (fp, r2) = (case r1 of
                        [] \<Rightarrow> ([], [])
                      | c # r \<Rightarrow> if c = CHR ''.''
                                 then (takeWhile isDigit r, dropWhile isDigit r)
                                 else ([], r1))
      in if ip = [] \<and> fp = [] then None
         else Some (scale10 (real (digitsValue ip) + real (digitsValue fp) / 10 ^ length fp)
                            (exponentPart r2)))"

definition parseFloat :: "string \<Rightarrow> jsnum" where
  "parseFloat s =
     (let (neg, u) = splitSign (dropWhile isWhiteSpace s)
      in if take 8 u = ''Infinity'' then (if neg then NInf else PInf)
         else case strUnsignedDecimal u of
                None \<Rightarrow> NaN
              | Some v \<Rightarrow> Fin (if neg then - v else v))"

subsection \<open>Property attributes and the form state holder\<close>

record PropertyAttributes =
  livingArea :: string
  bedroomCount :: string
  bathroomCount :: string
  geographicZone :: string
  constructionYear :: string
  parkingSpaces :: string

record ValidationResult =
  isValid :: bool
  invalidFields :: "string list"

datatype field =
  LivingArea | BedroomCount | BathroomCount | GeographicZone | ConstructionYear | ParkingSpaces

fun fieldKey :: "field \<Rightarrow> string" where
  "fieldKey LivingArea = ''livingArea''"
| "fieldKey BedroomCount = ''bedroomCount''"
| "fieldKey BathroomCount = ''bathroomCount''"
| "fieldKey GeographicZone = ''geographicZone''"
| "fieldKey ConstructionYear = ''constructionYear''"
| "fieldKey ParkingSpaces = ''parkingSpaces''"

fun fieldValue :: "field \<Rightarrow> PropertyAttributes \<Rightarrow> string" where
  "fieldValue LivingArea p = livingArea p"
| "fieldValue BedroomCount p = bedroomCount p"
| "fieldValue BathroomCount p = bathroomCount p"
| "fieldValue GeographicZone p = geographicZone p"
| "fieldValue ConstructionYear p = constructionYear p"
| "fieldValue ParkingSpaces p = parkingSpaces p"

definition initialPropertyData :: PropertyAttributes where
  "initialPropertyData =
     \<lparr>livingArea = '''', bedroomCount = '''', bathroomCount = '''',
      geographicZone = '''', constructionYear = '''', parkingSpaces = ''''\<rparr>"

fun updateField :: "field \<Rightarrow> string \<Rightarrow> PropertyAttributes \<Rightarrow> PropertyAttributes" where
  "updateField LivingArea v p = p\<lparr>livingArea := v\<rparr>"
| "updateField BedroomCount v p = p\<lparr>bedroomCount := v\<rparr>"
| "updateField BathroomCount v p = p\<lparr>bathroomCount := v\<rparr>"
| "updateField GeographicZone v p = p\<lparr>geographicZone := v\<rparr>"
| "updateField ConstructionYear v p = p\<lparr>constructionYear := v\<rparr>"
| "updateField ParkingSpaces v p = p\<lparr>parkingSpaces := v\<rparr>"

text \<open>\<open>!s\<close> on a string holds exactly for the empty string.\<close>

definition js_not_string :: "string \<Rightarrow> bool" where
  "js_not_string s = (s = [])"

definition validationMap :: "PropertyAttributes \<Rightarrow> (string \<times> bool) list" where
  "validationMap p =
     [(''livingArea'', js_not_string (livingArea p)),
      (''bedroomCount'', js_not_string (bedroomCount p)),
      (''bathroomCount'', js_not_string (bathroomCount p)),
      (''geographicZone'', js_not_string (geographicZone p)),
      (''constructionYear'', js_not_string (constructionYear p)),
      (''parkingSpaces'', js_not_string (parkingSpaces p))]"

definition validateFormCompletion :: "PropertyAttributes \<Rightarrow> ValidationResult" where
  "validateFormCompletion p =
     (let invalid = map fst (filter snd (validationMap p))
      in \<lparr>isValid = (length invalid = 0), invalidFields = invalid\<rparr>)"

definition resetForm :: "PropertyAttributes \<Rightarrow> PropertyAttributes" where
  "resetForm p = initialPropertyData"

subsection \<open>The pricing calculation\<close>

definition FOUNDATION_VALUE :: real where "FOUNDATION_VALUE = 150000"
definition AREA_MULTIPLIER :: real where "AREA_MULTIPLIER = 120"
definition BEDROOM_INCREMENT :: real where "BEDROOM_INCREMENT = 25000"
definition BATHROOM_INCREMENT :: real where "BATHROOM_INCREMENT = 15000"
definition PARKING_VALUE :: real where "PARKING_VALUE = 10000"
definition ANNUAL_DEPRECIATION :: real where "ANNUAL_DEPRECIATION = 500"
definition CURRENT_YEAR :: real where "CURRENT_YEAR = 2025"

definition LOCATION_FACTORS :: "(string \<times> jsnum) list" where
  "LOCATION_FACTORS = [(''urban'', Fin 1.4), (''suburban'', Fin 1.2), (''rural'', Fin 1.0)]"

text \<open>
  \<open>LOCATION_FACTORS\<close> is an object literal, so reading a property that is not its own
  continues in \<open>Object.prototype\<close>.  The names below are the properties found there;
  each holds a built-in function, and \<open>__proto__\<close> gives \<open>Object.prototype\<close> itself.
\<close>

definition objectPrototypeKeys :: "string list" where
  "objectPrototypeKeys =
     [''constructor'', ''hasOwnProperty'', ''isPrototypeOf'', ''propertyIsEnumerable'',
      ''toLocaleString'', ''toString'', ''valueOf'', ''__proto__'',
      ''__defineGetter__'', ''__defineSetter__'', ''__lookupGetter__'', ''__lookupSetter__'']"

definition getProperty :: "(string \<times> jsnum) list \<Rightarrow> string \<Rightarrow> jsval" where
  "getProperty own k =
     (case map_of own k of
        Some v \<Rightarrow> JSNumber v
      | None \<Rightarrow> if k \<in> set objectPrototypeKeys then JSObject k else JSUndefined)"

definition livingAreaValue :: "PropertyAttributes \<Rightarrow> jsnum" where
  "livingAreaValue p = parseFloat (livingArea p)"

definition bedroomValue :: "PropertyAttributes \<Rightarrow> jsnum" where
  "bedroomValue p = parseFloat (bedroomCount p)"

definition bathroomValue :: "PropertyAttributes \<Rightarrow> jsnum" where
  "bathroomValue p = parseFloat (bathroomCount p)"

definition propertyAge :: "PropertyAttributes \<Rightarrow> jsnum" where
  "propertyAge p = js_sub (Fin CURRENT_YEAR) (parseFloat (constructionYear p))"

definition parkingValue :: "PropertyAttributes \<Rightarrow> jsnum" where
  "parkingValue p = parseFloat (parkingSpaces p)"

definition areaComponent :: "PropertyAttributes \<Rightarrow> jsnum" where
  "areaComponent p = js_mul (livingAreaValue p) (Fin AREA_MULTIPLIER)"

definition bedroomComponent :: "PropertyAttributes \<Rightarrow> jsnum" where
  "bedroomComponent p = js_mul (bedroomValue p) (Fin BEDROOM_INCREMENT)"

definition bathroomComponent :: "PropertyAttributes \<Rightarrow> jsnum" where
  "bathroomComponent p = js_mul (bathroomValue p) (Fin BATHROOM_INCREMENT)"

definition ageComponent :: "PropertyAttributes \<Rightarrow> jsnum" where
  "ageComponent p = Math_max (Fin 0) (js_mul (propertyAge p) (Fin ANNUAL_DEPRECIATION))"

definition parkingComponent :: "PropertyAttributes \<Rightarrow> jsnum" where
  "parkingComponent p = js_mul (parkingValue p) (Fin PARKING_VALUE)"

definition locationFactor :: "string \<Rightarrow> jsval" where
  "locationFactor zone = js_or (getProperty LOCATION_FACTORS zone) (JSNumber (Fin 1.0))"

definition baseValuation :: "PropertyAttributes \<Rightarrow> jsnum" where
  "baseValuation p =
     js_sub
       (js_add
          (js_add
             (js_add (js_add (Fin FOUNDATION_VALUE) (areaComponent p)) (bedroomComponent p))
             (bathroomComponent p))
          (parkingComponent p))
       (ageComponent p)"

definition adjustedValuation :: "PropertyAttributes \<Rightarrow> jsnum" where
  "adjustedValuation p =
     js_mul (baseValuation p) (ToNumber (locationFactor (geographicZone p)))"

text \<open>The argument \<open>random\<close> is the value that \<open>Math.random()\<close> returns.\<close>

definition volatilityRange :: "PropertyAttributes \<Rightarrow> real \<Rightarrow> jsnum" where
  "volatilityRange p random =
     js_mul (adjustedValuation p) (js_sub (js_mul (Fin random) (Fin 0.1)) (Fin 0.05))"

definition finalValuation :: "PropertyAttributes \<Rightarrow> real \<Rightarrow> jsnum" where
  "finalValuation p random =
     Math_round (js_add (adjustedValuation p) (volatilityRange p random))"

subsection \<open>Component state, handlers and events\<close>

text \<open>
  \<open>pendingTimers\<close> holds, oldest first, the attribute snapshots captured by the callbacks
  that \<open>setTimeout\<close> has scheduled and not yet run; all have the same delay, so they
  run in the order they were scheduled.
\<close>

record component_state =
  propertyData :: PropertyAttributes
  estimatedValue :: "jsnum option"
  isCalculating :: bool
  pendingTimers :: "PropertyAttributes list"

definition initialState :: component_state where
  "initialState =
     \<lparr>propertyData = initialPropertyData, estimatedValue = None,
      isCalculating = False, pendingTimers = []\<rparr>"

definition executeValuationAlgorithm ::
  "PropertyAttributes \<Rightarrow> component_state \<Rightarrow> component_state" where
  "executeValuationAlgorithm p s =
     s\<lparr>isCalculating := True, pendingTimers := pendingTimers s @ [p]\<rparr>"

definition timeoutCallback ::
  "PropertyAttributes \<Rightarrow> real \<Rightarrow> component_state \<Rightarrow> component_state" where
  "timeoutCallback p random s =
     s\<lparr>estimatedValue := Some (finalValuation p random), isCalculating := False\<rparr>"

definition clearValuation :: "component_state \<Rightarrow> component_state" where
  "clearValuation s = s\<lparr>estimatedValue := None\<rparr>"

definition validationStatus :: "component_state \<Rightarrow> ValidationResult" where
  "validationStatus s = validateFormCompletion (propertyData s)"

definition handleFieldChange :: "field \<Rightarrow> string \<Rightarrow> component_state \<Rightarrow> component_state" where
  "handleFieldChange name v s =
     clearValuation (s\<lparr>propertyData := updateField name v (propertyData s)\<rparr>)"

definition handleFormSubmission :: "component_state \<Rightarrow> component_state" where
  "handleFormSubmission s =
     (if isValid (validationStatus s)
      then executeValuationAlgorithm (propertyData s) s else s)"

text \<open>The \<open>disabled\<close> attribute of the submit button, and what is rendered as result.\<close>

definition submitDisabled :: "component_state \<Rightarrow> bool" where
  "submitDisabled s = (\<not> isValid (validationStatus s) \<or> isCalculating s)"

definition resultDisplayed :: "component_state \<Rightarrow> bool" where
  "resultDisplayed s = (estimatedValue s \<noteq> None)"

text \<open>
  The option values of the four select elements (each also offers the empty value of
  \<open>Select...\<close>); the two number inputs carry free text.
\<close>

fun selectValues :: "field \<Rightarrow> string list option" where
  "selectValues LivingArea = None"
| "selectValues BedroomCount = Some ['''', ''1'', ''2'', ''3'', ''4'', ''5+'']"
| "selectValues BathroomCount =
     Some ['''', ''1'', ''1.5'', ''2'', ''2.5'', ''3'', ''3.5'', ''4+'']"
| "selectValues GeographicZone = Some ['''', ''urban'', ''suburban'', ''rural'']"
| "selectValues ConstructionYear = None"
| "selectValues ParkingSpaces = Some ['''', ''0'', ''1'', ''2'', ''3'']"

text \<open>
  The events of a page session: a change of a field, a press of the submit control,
  the expiry of the oldest pending timer (with the random draw its callback makes), and
  \<open>resetForm\<close>, which the hook returns although the component never calls it.
\<close>

datatype event = Change field string | Submit | TimerExpires real | Reset

fun deliverable :: "event \<Rightarrow> bool" where
  "deliverable (Change name v) =
     (case selectValues name of None \<Rightarrow> True | Some vs \<Rightarrow> v \<in> set vs)"
| "deliverable Submit = True"
| "deliverable (TimerExpires random) = (0 \<le> random \<and> random < 1)"
| "deliverable Reset = True"

fun step :: "event \<Rightarrow> component_state \<Rightarrow> component_state" where
  "step (Change name v) s = handleFieldChange name v s"
| "step Submit s = (if submitDisabled s then s else handleFormSubmission s)"
| "step (TimerExpires random) s =
     (case pendingTimers s of
        [] \<Rightarrow> s
      | p # rest \<Rightarrow> timeoutCallback p random (s\<lparr>pendingTimers := rest\<rparr>))"
| "step Reset s = s\<lparr>propertyData := resetForm (propertyData s)\<rparr>"

definition run :: "event list \<Rightarrow> component_state \<Rightarrow> component_state" where
  "run es s = foldl (\<lambda>s e. step e s) s es"

text \<open>
  \<open>deliverable\<close> and \<open>step\<close> admit more than the page does: a number input is taken to
  carry any text, and a press of the enabled submit control always reaches
  \<open>handleFormSubmission\<close>, although the browser withholds it when a \<open>required\<close>,
  \<open>min\<close>, \<open>max\<close> or step constraint of the form fails.  The sessions of the page are
  therefore among the runs of \<open>deliverable\<close> events, and what holds on all of those
  holds on the page.

  What a number input really hands to \<open>handleFieldChange\<close> is narrower.  An input of type
  \<open>number\<close> keeps its text only when it is a valid floating-point number (an optional
  minus sign, digits with an optional fraction or a fraction alone, an optional
  exponent) and has the empty value otherwise.  \<open>formDeliverable\<close> adds this to
  \<open>deliverable\<close>.
\<close>

definition validExponent :: "string \<Rightarrow> bool" where
  "validExponent r =
     (case r of
        [] \<Rightarrow> True
      | c # r' \<Rightarrow>
          (c = CHR ''e'' \<or> c = CHR ''E'') \<and>
          (let d = (case r' of
                      [] \<Rightarrow> []
                    | x # y \<Rightarrow> if x = CHR ''-'' \<or> x = CHR ''+'' then y else r')
           in d \<noteq> [] \<and> list_all isDigit d))"

definition validFloatingPointNumber :: "string \<Rightarrow> bool" where
  "validFloatingPointNumber s =
     (let u = (case s of [] \<Rightarrow> [] | c # r \<Rightarrow> if c = CHR ''-'' then r else s);
          ip = takeWhile isDigit u; r1 = dropWhile isDigit u;
          (ok, r2) = (case r1 of
                        [] \<Rightarrow> (ip \<noteq> [], [])
                      | c # r \<Rightarrow> if c = CHR ''.''
                                 then (takeWhile isDigit r \<noteq> [], dropWhile isDigit r)
                                 else (ip \<noteq> [], r1))
      in ok \<and> validExponent r2)"

definition numberInputValue :: "string \<Rightarrow> string" where
  "numberInputValue raw = (if validFloatingPointNumber raw then raw else [])"

fun formDeliverable :: "event \<Rightarrow> bool" where
  "formDeliverable (Change name v) =
     (case selectValues name of None \<Rightarrow> numberInputValue v = v | Some vs \<Rightarrow> v \<in> set vs)"
| "formDeliverable e = deliverable e"

subsection \<open>Auxiliary notions for the properties\<close>

text \<open>The six fields in the order in which \<open>validationMap\<close> lists them.\<close>

definition allFields :: "field list" where
  "allFields = [LivingArea, BedroomCount, BathroomCount, GeographicZone, ConstructionYear, ParkingSpaces]"

text \<open>The worked example of the specification.\<close>

definition specExample :: PropertyAttributes where
  "specExample =
     \<lparr>livingArea = ''2000'', bedroomCount = ''3'', bathroomCount = ''2'',
      geographicZone = ''suburban'', constructionYear = ''2010'', parkingSpaces = ''2''\<rparr>"

text \<open>A session that fills in the worked example and presses submit.\<close>

definition fillAndSubmit :: "event list" where
  "fillAndSubmit =
     [Change LivingArea ''2000'', Change BedroomCount ''3'', Change BathroomCount ''2'',
      Change GeographicZone ''suburban'', Change ConstructionYear ''2010'',
      Change ParkingSpaces ''2'', Submit]"

text \<open>
  The specification speaks of a string with a leading numeric prefix.  Stated on its own,
  without reference to the conversion: after leading white space and an optional sign
  the string continues with \<open>Infinity\<close>, with a digit, or with a point and a digit.
\<close>

definition leadingNumericPrefix :: "string \<Rightarrow> bool" where
  "leadingNumericPrefix s =
     (let u = snd (splitSign (dropWhile isWhiteSpace s))
      in take 8 u = ''Infinity'' \<or>
         (case u of
            [] \<Rightarrow> False
          | c # r \<Rightarrow> isDigit c \<or>
                     (c = CHR ''.'' \<and> (case r of [] \<Rightarrow> False | d # _ \<Rightarrow> isDigit d))))"

text \<open>
  Decimal literals, stated on their own.  A literal is an optional sign, integer digits,
  an optional fraction (a point and digits; \<open>None\<close> when there is no point) and an
  optional exponent (the letter, an optional sign, digits).  Digits must be present
  before or after the point, and in the exponent.  Its value is read off in positional
  notation.  \<open>notContinued\<close> says that the text after a literal does not continue it:
  it does not start with a digit; after a literal without exponent it does not start
  with an exponent (the letter, an optional sign, a digit); and after a literal that
  is integer digits only, a point is followed by neither a digit nor an exponent.
\<close>

definition isSign :: "string \<Rightarrow> bool" where
  "isSign sg = (sg = [] \<or> sg = ''+'' \<or> sg = ''-'')"

definition fractionString :: "string option \<Rightarrow> string" where
  "fractionString fr = (case fr of None \<Rightarrow> [] | Some fp \<Rightarrow> CHR ''.'' # fp)"

definition exponentString :: "(char \<times> string \<times> string) option \<Rightarrow> string" where
  "exponentString ex = (case ex of None \<Rightarrow> [] | Some (m, es, ed) \<Rightarrow> m # es @ ed)"

definition decimalLiteral ::
  "string \<Rightarrow> string \<Rightarrow> string option \<Rightarrow> (char \<times> string \<times> string) option \<Rightarrow> bool" where
  "decimalLiteral sg ip fr ex =
     (isSign sg \<and> list_all isDigit ip \<and>
      (case fr of
         None \<Rightarrow> ip \<noteq> []
       | Some fp \<Rightarrow> list_all isDigit fp \<and> (ip \<noteq> [] \<or> fp \<noteq> [])) \<and>
      (case ex of
         None \<Rightarrow> True
       | Some (m, es, ed) \<Rightarrow>
           (m = CHR ''e'' \<or> m = CHR ''E'') \<and> isSign es \<and> ed \<noteq> [] \<and> list_all isDigit ed))"

primrec decimalNumber :: "string \<Rightarrow> nat" where
  "decimalNumber [] = 0"
| "decimalNumber (d # ds) = digitValue d * 10 ^ length ds + decimalNumber ds"

definition exponentValue :: "(char \<times> string \<times> string) option \<Rightarrow> int" where
  "exponentValue ex =
     (case ex of
        None \<Rightarrow> 0
      | Some (m, es, ed) \<Rightarrow> if es = ''-'' then - int (decimalNumber ed) else int (decimalNumber ed))"

definition literalValue ::
  "string \<Rightarrow> string \<Rightarrow> string option \<Rightarrow> (char \<times> string \<times> string) option \<Rightarrow> real" where
  "literalValue sg ip fr ex =
     (if sg = ''-'' then - 1 else 1) *
     ((real (decimalNumber ip) +
       (case fr of None \<Rightarrow> 0 | Some fp \<Rightarrow> real (decimalNumber fp) / 10 ^ length fp)) *
      10 powi exponentValue ex)"

definition startsDigit :: "string \<Rightarrow> bool" where
  "startsDigit r = (case r of [] \<Rightarrow> False | c # _ \<Rightarrow> isDigit c)"

definition startsExponent :: "string \<Rightarrow> bool" where
  "startsExponent r =
     (case r of
        [] \<Rightarrow> False
      | m # r' \<Rightarrow>
          (m = CHR ''e'' \<or> m = CHR ''E'') \<and>
          (startsDigit r' \<or>
           (case r' of
              [] \<Rightarrow> False
            | x # y \<Rightarrow> (x = CHR ''+'' \<or> x = CHR ''-'') \<and> startsDigit y)))"

definition notContinued ::
  "string option \<Rightarrow> (char \<times> string \<times> string) option \<Rightarrow> string \<Rightarrow> bool" where
  "notContinued fr ex rest =
     (\<not> startsDigit rest \<and>
      (ex = None \<longrightarrow> \<not> startsExponent rest) \<and>
      (fr = None \<and> ex = None \<longrightarrow>
         (case rest of
            [] \<Rightarrow> True
          | c # r \<Rightarrow> c = CHR ''.'' \<longrightarrow> \<not> startsDigit r \<and> \<not> startsExponent r)))"

text \<open>The five attributes that the calculation parses, and what holds of them.\<close>

definition parsedFields :: "field list" where
  "parsedFields = [LivingArea, BedroomCount, BathroomCount, ConstructionYear, ParkingSpaces]"

definition numericAttributes :: "PropertyAttributes \<Rightarrow> bool" where
  "numericAttributes p = list_all (\<lambda>f. leadingNumericPrefix (fieldValue f p)) parsedFields"

definition numericInvariant :: "component_state \<Rightarrow> bool" where
  "numericInvariant s =
     (list_all (\<lambda>f. fieldValue f (propertyData s) = [] \<or>
                     leadingNumericPrefix (fieldValue f (propertyData s))) parsedFields \<and>
      list_all numericAttributes (pendingTimers s))"


text \<open>
  A session in which letters are entered for the living area: the number input hands
  over its sanitised value; the other fields are filled in, submit is pressed and a timer
  expires.
\<close>

definition malformedAttempt :: "event list" where
  "malformedAttempt =
     [Change LivingArea (numberInputValue ''abc''), Change BedroomCount ''3'',
      Change BathroomCount ''2'', Change GeographicZone ''suburban'',
      Change ConstructionYear ''2010'', Change ParkingSpaces ''2'', Submit, TimerExpires 0]"

text \<open>At most one computation is in flight, and the flag says whether one is.\<close>

definition oneInFlight :: "component_state \<Rightarrow> bool" where
  "oneInFlight s = (length (pendingTimers s) \<le> 1 \<and> (isCalculating s \<longleftrightarrow> pendingTimers s \<noteq> []))"

text \<open>The parking value held by the form and by every scheduled callback.\<close>

definition parkingInvariant :: "component_state \<Rightarrow> bool" where
  "parkingInvariant s =
     (parkingSpaces (propertyData s) \<in> set ['''', ''0'', ''1'', ''2'', ''3''] \<and>
      (\<forall>p \<in> set (pendingTimers s). parkingSpaces p \<in> set [''0'', ''1'', ''2'', ''3'']))"

section \<open>Properties\<close>

subsection \<open>Arithmetic with NaN\<close>

lemmas parse_defs =
  parseFloat_def splitSign_def isWhiteSpace_def strUnsignedDecimal_def isDigit_def
  digitsValue_def digitValue_def exponentPart_def scale10_def

lemmas constant_defs =
  FOUNDATION_VALUE_def AREA_MULTIPLIER_def BEDROOM_INCREMENT_def BATHROOM_INCREMENT_def
  PARKING_VALUE_def ANNUAL_DEPRECIATION_def CURRENT_YEAR_def

lemmas component_defs =
  areaComponent_def bedroomComponent_def bathroomComponent_def parkingComponent_def
  ageComponent_def propertyAge_def livingAreaValue_def bedroomValue_def bathroomValue_def
  parkingValue_def

lemma js_add_NaN_right [simp]: "js_add a NaN = NaN"
  by (cases a) simp_all

lemma js_mul_NaN_right [simp]: "js_mul a NaN = NaN"
  by (cases a) simp_all

lemma Math_max_NaN_right [simp]: "Math_max a NaN = NaN"
  by (cases a) simp_all

lemma js_sub_NaN [simp]: "js_sub a NaN = NaN" "js_sub NaN b = NaN"
  by (simp_all add: js_sub_def)

subsection \<open>The worked example\<close>

lemma digitsValue_Nil [simp]: "digitsValue [] = 0"
  by (simp add: digitsValue_def)











subsection \<open>The completeness check\<close>

lemma set_allFields: "set allFields = UNIV"
proof -
  have "f \<in> set allFields" for f by (cases f) (simp_all add: allFields_def)
  then show ?thesis by blast
qed

lemma inj_fieldKey: "inj fieldKey"
proof (rule injI)
  fix f g assume "fieldKey f = fieldKey g"
  then show "f = g" by (cases f; cases g) simp_all
qed

lemma map_fst_filter_snd:
  "map fst (filter snd (map (\<lambda>x. (g x, P x)) xs)) = map g (filter P xs)"
  by (induction xs) simp_all

lemma validationMap_allFields:
  "validationMap p = map (\<lambda>f. (fieldKey f, fieldValue f p = [])) allFields"
  by (simp add: validationMap_def allFields_def js_not_string_def)

lemma invalidFields_filter:
  "invalidFields (validateFormCompletion p) =
     map fieldKey (filter (\<lambda>f. fieldValue f p = []) allFields)"
  by (simp add: validateFormCompletion_def Let_def validationMap_allFields map_fst_filter_snd)

lemma isValid_invalidFields:
  "isValid (validateFormCompletion p) \<longleftrightarrow> invalidFields (validateFormCompletion p) = []"
  by (simp add: validateFormCompletion_def Let_def)

lemma isValid_iff: "isValid (validateFormCompletion p) \<longleftrightarrow> (\<forall>f. fieldValue f p \<noteq> [])"
proof -
  have "isValid (validateFormCompletion p) \<longleftrightarrow> (\<forall>f \<in> set allFields. fieldValue f p \<noteq> [])"
    unfolding isValid_invalidFields invalidFields_filter by (simp add: filter_empty_conv)
  then show ?thesis by (simp add: set_allFields)
qed

text \<open>
  Claim C2.  \<open>validateFormCompletion\<close> lists exactly the names of the fields whose value
  is the empty string, each once; it reports valid exactly when that list is empty, which
  is exactly when all six fields are non-empty; and its result depends on nothing but
  which fields are empty, so whether a value is a number or a known option is never
  looked at.
\<close>

theorem validateFormCompletion_exact:
  "set (invalidFields (validateFormCompletion p)) = fieldKey ` {f. fieldValue f p = ''''} \<and>
   distinct (invalidFields (validateFormCompletion p)) \<and>
   (isValid (validateFormCompletion p) \<longleftrightarrow> invalidFields (validateFormCompletion p) = []) \<and>
   (isValid (validateFormCompletion p) \<longleftrightarrow> (\<forall>f. fieldValue f p \<noteq> '''')) \<and>
   (\<forall>q. (\<forall>f. fieldValue f q = '''' \<longleftrightarrow> fieldValue f p = '''') \<longrightarrow>
        validateFormCompletion q = validateFormCompletion p)"
proof (intro conjI allI impI)
  show "set (invalidFields (validateFormCompletion p)) = fieldKey ` {f. fieldValue f p = ''''}"
    by (simp add: invalidFields_filter set_allFields)
  show "distinct (invalidFields (validateFormCompletion p))"
    unfolding invalidFields_filter
    by (simp add: distinct_map allFields_def inj_on_subset [OF inj_fieldKey])
  show "isValid (validateFormCompletion p) \<longleftrightarrow> invalidFields (validateFormCompletion p) = []"
    by (rule isValid_invalidFields)
  show "isValid (validateFormCompletion p) \<longleftrightarrow> (\<forall>f. fieldValue f p \<noteq> '''')"
    by (rule isValid_iff)
next
  fix q assume same: "\<forall>f. fieldValue f q = '''' \<longleftrightarrow> fieldValue f p = ''''"
  then have "invalidFields (validateFormCompletion q) = invalidFields (validateFormCompletion p)"
    by (simp add: invalidFields_filter)
  moreover from same have "isValid (validateFormCompletion q) = isValid (validateFormCompletion p)"
    by (simp add: isValid_iff)
  ultimately show "validateFormCompletion q = validateFormCompletion p"
    by simp
qed

theorem validateFormCompletion_exact_witness:
  "validateFormCompletion (specExample\<lparr>livingArea := ''abc'', bedroomCount := ''7''\<rparr>) =
     validateFormCompletion specExample \<and>
   isValid (validateFormCompletion specExample) \<and>
   invalidFields (validateFormCompletion (specExample\<lparr>geographicZone := '''', livingArea := ''''\<rparr>))
     = [''livingArea'', ''geographicZone'']"
proof -
  let ?q = "specExample\<lparr>livingArea := ''abc'', bedroomCount := ''7''\<rparr>"
  have "\<forall>f. fieldValue f ?q = '''' \<longleftrightarrow> fieldValue f specExample = ''''"
  proof
    fix f show "fieldValue f ?q = '''' \<longleftrightarrow> fieldValue f specExample = ''''"
      by (cases f) (simp_all add: specExample_def)
  qed
  with validateFormCompletion_exact [of specExample]
  have "validateFormCompletion ?q = validateFormCompletion specExample" by blast
  moreover have "isValid (validateFormCompletion specExample)"
    by (simp add: validateFormCompletion_def validationMap_def js_not_string_def specExample_def)
  moreover have "invalidFields (validateFormCompletion (specExample\<lparr>geographicZone := '''', livingArea := ''''\<rparr>))
     = [''livingArea'', ''geographicZone'']"
    by (simp add: validateFormCompletion_def validationMap_def js_not_string_def specExample_def)
  ultimately show ?thesis by blast
qed

subsection \<open>Parsing a number followed by other characters\<close>

text \<open>The conversion on some strings at the edges of the grammar of decimal literals.\<close>

lemma parseFloat_examples:
  "parseFloat '' 12.5e-1abc'' = Fin (5 / 4)"
  "parseFloat ''-.5'' = Fin (- (1 / 2))"
  "parseFloat ''5.'' = Fin 5"
  "parseFloat ''1e'' = Fin 1"
  "parseFloat ''1e+2'' = Fin 100"
  "parseFloat ''-Infinity!'' = NInf"
  "parseFloat ''.'' = NaN"
  "parseFloat ''+-5'' = NaN"
  "parseFloat '''' = NaN"
  "parseFloat ''abc'' = NaN"
  by (simp_all add: parse_defs)

lemma isDigit_not_special:
  "isDigit c \<Longrightarrow> \<not> isWhiteSpace c \<and> c \<noteq> CHR ''-'' \<and> c \<noteq> CHR ''+'' \<and> c \<noteq> CHR ''I'' \<and> c \<noteq> CHR ''.''"
  by (auto simp: isDigit_def isWhiteSpace_def)

lemma takeWhile_digits_stop:
  "list_all isDigit ds \<Longrightarrow> \<not> isDigit c \<Longrightarrow> takeWhile isDigit (ds @ c # rest) = ds"
  by (induction ds) simp_all

lemma dropWhile_digits_stop:
  "list_all isDigit ds \<Longrightarrow> \<not> isDigit c \<Longrightarrow> dropWhile isDigit (ds @ c # rest) = c # rest"
  by (induction ds) simp_all

lemma strUnsignedDecimal_digits_then:
  assumes "ds \<noteq> []" "list_all isDigit ds" "\<not> isDigit c"
    "c \<noteq> CHR ''.''" "c \<noteq> CHR ''e''" "c \<noteq> CHR ''E''"
  shows "strUnsignedDecimal (ds @ c # rest) = Some (real (digitsValue ds))"
  using assms
  by (simp add: strUnsignedDecimal_def takeWhile_digits_stop dropWhile_digits_stop
      exponentPart_def scale10_def)

lemma parseFloat_digits_then:
  assumes "ds \<noteq> []" "list_all isDigit ds" "\<not> isDigit c"
    "c \<noteq> CHR ''.''" "c \<noteq> CHR ''e''" "c \<noteq> CHR ''E''"
  shows "parseFloat (ds @ c # rest) = Fin (real (digitsValue ds))"
proof -
  from assms(1) obtain d ds' where ds: "ds = d # ds'" by (cases ds) auto
  with assms(2) have d: "isDigit d" by simp
  note nd = isDigit_not_special [OF d]
  have "dropWhile isWhiteSpace (ds @ c # rest) = ds @ c # rest"
    using nd by (simp add: ds)
  moreover have "splitSign (ds @ c # rest) = (False, ds @ c # rest)"
    using nd by (simp add: ds splitSign_def)
  moreover have "take 8 (ds @ c # rest) \<noteq> ''Infinity''"
    using nd by (simp add: ds)
  ultimately show ?thesis
    by (simp add: parseFloat_def strUnsignedDecimal_digits_then [OF assms])
qed

lemma foldl_decimalNumber:
  "foldl (\<lambda>acc c. 10 * acc + digitValue c) acc ds = acc * 10 ^ length ds + decimalNumber ds"
  by (induction ds arbitrary: acc) (simp_all add: algebra_simps)

lemma digitsValue_decimalNumber: "digitsValue ds = decimalNumber ds"
  by (simp add: digitsValue_def foldl_decimalNumber)

lemma scale10_powi: "scale10 m e = m * 10 powi e"
proof (cases "0 \<le> e")
  case True
  then show ?thesis by (simp add: scale10_def power_int_def)
next
  case False
  have "m / 10 ^ nat (- e) = m * inverse 10 ^ nat (- e)"
    by (simp only: divide_inverse power_inverse)
  with False show ?thesis by (simp only: scale10_def power_int_def if_False)
qed

lemma digits_stop:
  assumes "list_all isDigit xs" "ys = [] \<or> \<not> isDigit (hd ys)"
  shows "takeWhile isDigit (xs @ ys) = xs" and "dropWhile isDigit (xs @ ys) = ys"
proof -
  from assms(2) have "takeWhile isDigit ys = []" "dropWhile isDigit ys = ys"
    by (cases ys; simp)+
  with assms(1) show "takeWhile isDigit (xs @ ys) = xs" and "dropWhile isDigit (xs @ ys) = ys"
    by (induction xs) simp_all
qed

lemma startsDigit_stop: "\<not> startsDigit r \<Longrightarrow> r = [] \<or> \<not> isDigit (hd r)"
  by (cases r) (simp_all add: startsDigit_def)

lemma startsDigit_takeWhile: "\<not> startsDigit r \<Longrightarrow> takeWhile isDigit r = []"
  by (cases r) (simp_all add: startsDigit_def)

lemma startsDigit_dropWhile: "\<not> startsDigit r \<Longrightarrow> dropWhile isDigit r = r"
  by (cases r) (simp_all add: startsDigit_def)

lemma exponentPart_absent:
  assumes "\<not> startsExponent r"
  shows "exponentPart r = 0"
proof (cases r)
  case Nil
  then show ?thesis by (simp add: exponentPart_def)
next
  case (Cons m r')
  show ?thesis
  proof (cases "m = CHR ''e'' \<or> m = CHR ''E''")
    case False
    then show ?thesis by (simp add: Cons exponentPart_def)
  next
    case True
    with assms Cons have nd: "\<not> startsDigit r'"
      and ns: "case r' of [] \<Rightarrow> True
               | x # y \<Rightarrow> x = CHR ''+'' \<or> x = CHR ''-'' \<longrightarrow> \<not> startsDigit y"
      by (auto simp: startsExponent_def split: list.splits)
    obtain neg d where sp: "splitSign r' = (neg, d)" by (cases "splitSign r'")
    have "takeWhile isDigit d = []"
    proof (cases r')
      case Nil
      with sp show ?thesis by (simp add: splitSign_def)
    next
      case (Cons x y)
      with nd ns sp show ?thesis
        by (auto simp: splitSign_def startsDigit_takeWhile split: if_splits)
    qed
    with True show ?thesis
      by (auto simp: Cons exponentPart_def sp)
  qed
qed

lemma isDigit_head_facts:
  "isDigit c \<Longrightarrow> c \<noteq> CHR ''-'' \<and> c \<noteq> CHR ''+'' \<and> c \<noteq> CHR ''.'' \<and> c \<noteq> CHR ''e'' \<and> c \<noteq> CHR ''E'' \<and> c \<noteq> CHR ''I'' \<and> \<not> isWhiteSpace c"
  by (auto simp: isDigit_def isWhiteSpace_def)

lemma splitSign_isSign:
  assumes "isSign sg" "u \<noteq> []" "hd u \<noteq> CHR ''-''" "hd u \<noteq> CHR ''+''"
  shows "splitSign (sg @ u) = (sg = ''-'', u)"
proof -
  from assms(2) obtain c r where u: "u = c # r" by (cases u) auto
  from assms(1) consider "sg = []" | "sg = ''+''" | "sg = ''-''" by (auto simp: isSign_def)
  then show ?thesis
    using assms(3,4) by cases (simp_all add: splitSign_def u)
qed

lemma exponentPart_literal:
  assumes "case ex of None \<Rightarrow> True
           | Some (m, es, ed) \<Rightarrow>
               (m = CHR ''e'' \<or> m = CHR ''E'') \<and> isSign es \<and> ed \<noteq> [] \<and> list_all isDigit ed"
    and "\<not> startsDigit rest" and "ex = None \<longrightarrow> \<not> startsExponent rest"
  shows "exponentPart (exponentString ex @ rest) = exponentValue ex"
proof (cases ex)
  case None
  with assms(3) show ?thesis
    by (simp add: exponentString_def exponentValue_def exponentPart_absent)
next
  case (Some t)
  obtain m es ed where t: "t = (m, es, ed)" by (cases t)
  from assms(1) have m: "m = CHR ''e'' \<or> m = CHR ''E''" and es: "isSign es"
    and ed: "ed \<noteq> []" "list_all isDigit ed" by (simp_all add: Some t)
  from ed obtain d ds where edc: "ed = d # ds" and d: "isDigit d" by (cases ed) auto
  have hd: "ed @ rest \<noteq> []" "hd (ed @ rest) \<noteq> CHR ''-''" "hd (ed @ rest) \<noteq> CHR ''+''"
    using isDigit_head_facts [OF d] by (simp_all add: edc)
  have sp: "splitSign (es @ ed @ rest) = (es = ''-'', ed @ rest)"
    by (rule splitSign_isSign [OF es hd])
  have tw: "takeWhile isDigit (ed @ rest) = ed"
    by (rule digits_stop(1) [OF ed(2) startsDigit_stop [OF assms(2)]])
  show ?thesis
    using m ed(1)
    by (auto simp: Some t exponentString_def exponentValue_def exponentPart_def sp tw
        digitsValue_decimalNumber)
qed

lemma strUnsignedDecimal_literal:
  assumes "decimalLiteral sg ip fr ex" "notContinued fr ex rest"
  shows "strUnsignedDecimal (ip @ fractionString fr @ exponentString ex @ rest) =
           Some ((real (decimalNumber ip) +
                  (case fr of None \<Rightarrow> 0 | Some fp \<Rightarrow> real (decimalNumber fp) / 10 ^ length fp)) *
                 10 powi exponentValue ex)"
proof -
  define tail where "tail = exponentString ex @ rest"
  from assms(1) have ip: "list_all isDigit ip"
    and exwf: "case ex of None \<Rightarrow> True
           | Some (m, es, ed) \<Rightarrow>
               (m = CHR ''e'' \<or> m = CHR ''E'') \<and> isSign es \<and> ed \<noteq> [] \<and> list_all isDigit ed"
    by (simp_all add: decimalLiteral_def)
  from assms(2) have nd: "\<not> startsDigit rest" and ne: "ex = None \<longrightarrow> \<not> startsExponent rest"
    by (simp_all add: notContinued_def)
  have ep: "exponentPart tail = exponentValue ex"
    unfolding tail_def by (rule exponentPart_literal [OF exwf nd ne])
  have st: "tail = [] \<or> \<not> isDigit (hd tail)"
  proof (cases ex)
    case None
    with startsDigit_stop [OF nd] show ?thesis by (simp add: tail_def exponentString_def)
  next
    case (Some t)
    with exwf show ?thesis
      by (cases t) (auto simp: tail_def exponentString_def isDigit_def)
  qed
  show ?thesis
  proof (cases fr)
    case None
    with assms(1) have nip: "ip \<noteq> []" by (simp add: decimalLiteral_def)
    have tw: "takeWhile isDigit (ip @ tail) = ip" and dw: "dropWhile isDigit (ip @ tail) = tail"
      by (rule digits_stop [OF ip st])+
    have "strUnsignedDecimal (ip @ tail) =
            Some (real (decimalNumber ip) * 10 powi exponentValue ex)"
    proof (cases "\<exists>r. tail = CHR ''.'' # r")
      case False
      then have "(case tail of [] \<Rightarrow> ([], [])
                      | c # r \<Rightarrow> if c = CHR ''.''
                                 then (takeWhile isDigit r, dropWhile isDigit r)
                                 else ([], tail)) = ([], tail)"
        by (cases tail) auto
      then show ?thesis
        using nip
        by (simp add: strUnsignedDecimal_def tw dw ep scale10_powi digitsValue_decimalNumber)
    next
      case True
      then obtain r where tr: "tail = CHR ''.'' # r" by blast
      have exn: "ex = None"
      proof (cases ex)
        case (Some t)
        with exwf tr show ?thesis by (cases t) (auto simp: tail_def exponentString_def)
      qed
      with tr have rest: "rest = CHR ''.'' # r" by (simp add: tail_def exponentString_def)
      with assms(2) None exn have r: "\<not> startsDigit r" "\<not> startsExponent r"
        by (simp_all add: notContinued_def)
      have "exponentValue ex = 0" by (simp add: exn exponentValue_def)
      with nip show ?thesis
        by (simp add: strUnsignedDecimal_def tw [unfolded tr] dw [unfolded tr] tr
            startsDigit_takeWhile [OF r(1)] startsDigit_dropWhile [OF r(1)]
            exponentPart_absent [OF r(2)] scale10_powi digitsValue_decimalNumber)
    qed
    then show ?thesis by (simp add: None fractionString_def tail_def)
  next
    case (Some fp)
    with assms(1) have fp: "list_all isDigit fp" and nn: "ip \<noteq> [] \<or> fp \<noteq> []"
      by (simp_all add: decimalLiteral_def)
    have st1: "CHR ''.'' # fp @ tail = [] \<or> \<not> isDigit (hd (CHR ''.'' # fp @ tail))"
      by (simp add: isDigit_def)
    have tw: "takeWhile isDigit (ip @ CHR ''.'' # fp @ tail) = ip"
      and dw: "dropWhile isDigit (ip @ CHR ''.'' # fp @ tail) = CHR ''.'' # fp @ tail"
      by (rule digits_stop [OF ip st1])+
    have tw2: "takeWhile isDigit (fp @ tail) = fp" and dw2: "dropWhile isDigit (fp @ tail) = tail"
      by (rule digits_stop [OF fp st])+
    have "strUnsignedDecimal (ip @ CHR ''.'' # fp @ tail) =
            Some ((real (decimalNumber ip) + real (decimalNumber fp) / 10 ^ length fp) *
                  10 powi exponentValue ex)"
      using nn
      by (simp add: strUnsignedDecimal_def tw dw tw2 dw2 ep scale10_powi
          digitsValue_decimalNumber)
    then show ?thesis by (simp add: Some fractionString_def tail_def)
  qed
qed

lemma dropWhile_whitespace:
  assumes "list_all isWhiteSpace ws" "t \<noteq> []" "\<not> isWhiteSpace (hd t)"
  shows "dropWhile isWhiteSpace (ws @ t) = t"
proof -
  from assms(2,3) have "dropWhile isWhiteSpace t = t" by (cases t) simp_all
  with assms(1) show ?thesis by (induction ws) simp_all
qed

lemma literal_body_head:
  assumes "decimalLiteral sg ip fr ex"
  shows "ip @ fractionString fr @ t \<noteq> [] \<and>
         (isDigit (hd (ip @ fractionString fr @ t)) \<or> hd (ip @ fractionString fr @ t) = CHR ''.'')"
proof (cases ip)
  case Nil
  with assms obtain fp where "fr = Some fp" by (cases fr) (simp_all add: decimalLiteral_def)
  then show ?thesis by (simp add: Nil fractionString_def)
next
  case (Cons d ds)
  with assms have "isDigit d" by (simp add: decimalLiteral_def)
  then show ?thesis by (simp add: Cons)
qed

lemma body_head_facts:
  assumes "u \<noteq> []" "isDigit (hd u) \<or> hd u = CHR ''.''"
  shows "hd u \<noteq> CHR ''-''" "hd u \<noteq> CHR ''+''" "\<not> isWhiteSpace (hd u)" "take 8 u \<noteq> ''Infinity''"
proof -
  from assms(1) obtain c r where u: "u = c # r" by (cases u) auto
  with assms(2) have c: "isDigit c \<or> c = CHR ''.''" by simp
  then show "hd u \<noteq> CHR ''-''" "hd u \<noteq> CHR ''+''" "\<not> isWhiteSpace (hd u)"
    by (auto simp: u isDigit_def isWhiteSpace_def)
  from c show "take 8 u \<noteq> ''Infinity''"
    by (auto simp: u isDigit_def)
qed

lemma parseFloat_literal:
  assumes "list_all isWhiteSpace ws" "decimalLiteral sg ip fr ex" "notContinued fr ex rest"
  shows "parseFloat (ws @ sg @ ip @ fractionString fr @ exponentString ex @ rest) =
           Fin (literalValue sg ip fr ex)"
proof -
  define u where "u = ip @ fractionString fr @ exponentString ex @ rest"
  from literal_body_head [OF assms(2), of "exponentString ex @ rest"]
  have ne: "u \<noteq> []" and hd: "isDigit (hd u) \<or> hd u = CHR ''.''" by (simp_all add: u_def)
  note hf = body_head_facts [OF ne hd]
  from assms(2) have sg: "isSign sg" by (simp add: decimalLiteral_def)
  have sp: "splitSign (sg @ u) = (sg = ''-'', u)"
    by (rule splitSign_isSign [OF sg ne hf(1,2)])
  have "sg @ u \<noteq> []" using ne by simp
  moreover have "\<not> isWhiteSpace (hd (sg @ u))"
    using sg hf(3) ne by (auto simp: isSign_def isWhiteSpace_def)
  ultimately have dw: "dropWhile isWhiteSpace (ws @ sg @ u) = sg @ u"
    by (rule dropWhile_whitespace [OF assms(1)])
  have su: "strUnsignedDecimal u =
           Some ((real (decimalNumber ip) +
                  (case fr of None \<Rightarrow> 0 | Some fp \<Rightarrow> real (decimalNumber fp) / 10 ^ length fp)) *
                 10 powi exponentValue ex)"
    unfolding u_def by (rule strUnsignedDecimal_literal [OF assms(2,3)])
  have "parseFloat (ws @ sg @ u) = Fin (literalValue sg ip fr ex)"
    unfolding parseFloat_def dw sp by (simp add: hf(4) su literalValue_def)
  then show ?thesis by (simp only: u_def)
qed

lemma parseFloat_Infinity:
  assumes "list_all isWhiteSpace ws" "isSign sg"
  shows "parseFloat (ws @ sg @ ''Infinity'' @ rest) = (if sg = ''-'' then NInf else PInf)"
proof -
  define u where "u = ''Infinity'' @ rest"
  have u: "u \<noteq> []" "hd u \<noteq> CHR ''-''" "hd u \<noteq> CHR ''+''" "\<not> isWhiteSpace (hd u)"
    "take 8 u = ''Infinity''"
    by (simp_all add: u_def isWhiteSpace_def)
  have sp: "splitSign (sg @ u) = (sg = ''-'', u)"
    by (rule splitSign_isSign [OF assms(2) u(1,2,3)])
  have "\<not> isWhiteSpace (hd (sg @ u))"
    using assms(2) u(1,4) by (auto simp: isSign_def isWhiteSpace_def)
  moreover have "sg @ u \<noteq> []" using u(1) by simp
  ultimately have dw: "dropWhile isWhiteSpace (ws @ sg @ u) = sg @ u"
    by (intro dropWhile_whitespace [OF assms(1)])
  have "parseFloat (ws @ sg @ u) = (if sg = ''-'' then NInf else PInf)"
    unfolding parseFloat_def dw sp by (simp add: u(5))
  then show ?thesis by (simp only: u_def)
qed

text \<open>
  Claim C3.  Parsing takes the leading numeric prefix: \<open>5+\<close> gives 5, \<open>4+\<close> gives 4 and
  \<open>3+\<close> gives 3, also as the bedroom, bathroom and parking values of the calculation.
  In general, after any leading white space, every decimal literal (sign, digits,
  fraction, exponent) followed by text that does not continue it parses to the value
  of the literal, the same as the literal alone; so does a digit run followed by a
  character that is not a digit, a point or an exponent letter; and \<open>Infinity\<close> with
  an optional sign parses to that infinity whatever follows.
\<close>

theorem parseFloat_leading_prefix:
  "parseFloat ''5+'' = Fin 5 \<and> parseFloat ''4+'' = Fin 4 \<and> parseFloat ''3+'' = Fin 3 \<and>
   (bedroomCount p = ''5+'' \<longrightarrow> bedroomValue p = Fin 5) \<and>
   (bathroomCount p = ''4+'' \<longrightarrow> bathroomValue p = Fin 4) \<and>
   (parkingSpaces p = ''3+'' \<longrightarrow> parkingValue p = Fin 3) \<and>
   (\<forall>ds c rest. ds \<noteq> [] \<and> list_all isDigit ds \<and> \<not> isDigit c \<and>
        c \<noteq> CHR ''.'' \<and> c \<noteq> CHR ''e'' \<and> c \<noteq> CHR ''E'' \<longrightarrow>
        parseFloat (ds @ c # rest) = Fin (real (digitsValue ds))) \<and>
   (\<forall>ws sg ip fr ex rest.
        list_all isWhiteSpace ws \<and> decimalLiteral sg ip fr ex \<and> notContinued fr ex rest \<longrightarrow>
        parseFloat (ws @ sg @ ip @ fractionString fr @ exponentString ex @ rest) =
          Fin (literalValue sg ip fr ex) \<and>
        parseFloat (ws @ sg @ ip @ fractionString fr @ exponentString ex @ rest) =
          parseFloat (sg @ ip @ fractionString fr @ exponentString ex)) \<and>
   (\<forall>ws sg rest.
        list_all isWhiteSpace ws \<and> isSign sg \<longrightarrow>
        parseFloat (ws @ sg @ ''Infinity'' @ rest) = (if sg = ''-'' then NInf else PInf)) \<and>
   map digitValue ''0123456789'' = [0, 1, 2, 3, 4, 5, 6, 7, 8, 9]"
proof -
  have lit: "parseFloat ''5+'' = Fin 5" "parseFloat ''4+'' = Fin 4" "parseFloat ''3+'' = Fin 3"
    by (simp_all add: parse_defs)
  have gen: "parseFloat (ws @ sg @ ip @ fractionString fr @ exponentString ex @ rest) =
          Fin (literalValue sg ip fr ex) \<and>
        parseFloat (ws @ sg @ ip @ fractionString fr @ exponentString ex @ rest) =
          parseFloat (sg @ ip @ fractionString fr @ exponentString ex)"
    if a: "list_all isWhiteSpace ws \<and> decimalLiteral sg ip fr ex \<and> notContinued fr ex rest"
    for ws sg ip fr ex rest
  proof -
    from a have "parseFloat (ws @ sg @ ip @ fractionString fr @ exponentString ex @ rest) =
          Fin (literalValue sg ip fr ex)"
      by (simp add: parseFloat_literal)
    moreover from a have
      "parseFloat ([] @ sg @ ip @ fractionString fr @ exponentString ex @ []) =
          Fin (literalValue sg ip fr ex)"
      by (intro parseFloat_literal) (simp_all add: notContinued_def startsDigit_def startsExponent_def)
    ultimately show ?thesis by simp
  qed
  have dv: "map digitValue ''0123456789'' = [0, 1, 2, 3, 4, 5, 6, 7, 8, 9]"
    by (simp add: digitValue_def)
  from lit have flds: "(bedroomCount p = ''5+'' \<longrightarrow> bedroomValue p = Fin 5) \<and>
   (bathroomCount p = ''4+'' \<longrightarrow> bathroomValue p = Fin 4) \<and>
   (parkingSpaces p = ''3+'' \<longrightarrow> parkingValue p = Fin 3)"
    by (simp add: bedroomValue_def bathroomValue_def parkingValue_def)
  have run: "\<forall>ds c rest. ds \<noteq> [] \<and> list_all isDigit ds \<and> \<not> isDigit c \<and>
        c \<noteq> CHR ''.'' \<and> c \<noteq> CHR ''e'' \<and> c \<noteq> CHR ''E'' \<longrightarrow>
        parseFloat (ds @ c # rest) = Fin (real (digitsValue ds))"
    by (simp add: parseFloat_digits_then)
  have inf: "\<forall>ws sg rest.
        list_all isWhiteSpace ws \<and> isSign sg \<longrightarrow>
        parseFloat (ws @ sg @ ''Infinity'' @ rest) = (if sg = ''-'' then NInf else PInf)"
    using parseFloat_Infinity by blast
  from gen have all: "\<forall>ws sg ip fr ex rest.
        list_all isWhiteSpace ws \<and> decimalLiteral sg ip fr ex \<and> notContinued fr ex rest \<longrightarrow>
        parseFloat (ws @ sg @ ip @ fractionString fr @ exponentString ex @ rest) =
          Fin (literalValue sg ip fr ex) \<and>
        parseFloat (ws @ sg @ ip @ fractionString fr @ exponentString ex @ rest) =
          parseFloat (sg @ ip @ fractionString fr @ exponentString ex)"
    by blast
  from lit flds run all inf dv show ?thesis by (elim conjE, intro conjI) assumption+
qed

theorem parseFloat_leading_prefix_witness:
  "list_all isWhiteSpace '' '' \<and>
   decimalLiteral ''-'' ''12'' (Some ''5'') (Some (CHR ''e'', ''+'', ''1'')) \<and>
   notContinued (Some ''5'') (Some (CHR ''e'', ''+'', ''1'')) ''+ abc'' \<and>
   parseFloat '' -12.5e+1+ abc'' = Fin (- 125) \<and>
   parseFloat ''-12.5e+1'' = Fin (- 125) \<and>
   decimalLiteral [] ''1'' (Some ''5'') None \<and> notContinued (Some ''5'') None ''e+x'' \<and>
   parseFloat ''1.5e+x'' = Fin (3 / 2) \<and>
   list_all isDigit ''12'' \<and> \<not> isDigit CHR ''+'' \<and>
   parseFloat (''12'' @ CHR ''+'' # ''abc'') = Fin 12 \<and>
   isSign ''-'' \<and> parseFloat '' -Infinity and beyond'' = NInf"
proof -
  let ?ex = "Some (CHR ''e'', ''+'', ''1'')"
  have h1: "list_all isWhiteSpace '' '' \<and> decimalLiteral ''-'' ''12'' (Some ''5'') ?ex \<and>
            notContinued (Some ''5'') ?ex ''+ abc''"
    by (simp add: isWhiteSpace_def decimalLiteral_def isSign_def isDigit_def notContinued_def
        startsDigit_def)
  have v1: "literalValue ''-'' ''12'' (Some ''5'') ?ex = - 125"
    by (simp add: literalValue_def exponentValue_def digitValue_def)
  have t1: "'' '' @ ''-'' @ ''12'' @ fractionString (Some ''5'') @ exponentString ?ex @ ''+ abc''
              = '' -12.5e+1+ abc''"
    and t2: "''-'' @ ''12'' @ fractionString (Some ''5'') @ exponentString ?ex = ''-12.5e+1''"
    by (simp_all add: fractionString_def exponentString_def)
  have h4: "list_all isWhiteSpace [] \<and> decimalLiteral [] ''1'' (Some ''5'') None \<and>
            notContinued (Some ''5'') None ''e+x''"
    by (simp add: decimalLiteral_def isSign_def isDigit_def notContinued_def
        startsDigit_def startsExponent_def)
  have v4: "literalValue [] ''1'' (Some ''5'') None = 3 / 2"
    by (simp add: literalValue_def exponentValue_def digitValue_def)
  have t4: "[] @ [] @ ''1'' @ fractionString (Some ''5'') @ exponentString None @ ''e+x''
              = ''1.5e+x''"
    by (simp add: fractionString_def exponentString_def)
  have h2: "''12'' \<noteq> [] \<and> list_all isDigit ''12'' \<and> \<not> isDigit CHR ''+'' \<and>
        CHR ''+'' \<noteq> CHR ''.'' \<and> CHR ''+'' \<noteq> CHR ''e'' \<and> CHR ''+'' \<noteq> CHR ''E''"
    by (simp add: isDigit_def)
  have v2: "real (digitsValue ''12'') = 12" by (simp add: digitsValue_def digitValue_def)
  have h3: "list_all isWhiteSpace '' '' \<and> isSign ''-''"
    by (simp add: isWhiteSpace_def isSign_def)
  have t3: "'' '' @ ''-'' @ ''Infinity'' @ '' and beyond'' = '' -Infinity and beyond''" by simp
  note main = parseFloat_leading_prefix [of specExample]
  from main have run: "\<forall>ds c rest. ds \<noteq> [] \<and> list_all isDigit ds \<and> \<not> isDigit c \<and>
        c \<noteq> CHR ''.'' \<and> c \<noteq> CHR ''e'' \<and> c \<noteq> CHR ''E'' \<longrightarrow>
        parseFloat (ds @ c # rest) = Fin (real (digitsValue ds))"
    by (elim conjE)
  from main have all: "\<forall>ws sg ip fr ex rest.
        list_all isWhiteSpace ws \<and> decimalLiteral sg ip fr ex \<and> notContinued fr ex rest \<longrightarrow>
        parseFloat (ws @ sg @ ip @ fractionString fr @ exponentString ex @ rest) =
          Fin (literalValue sg ip fr ex) \<and>
        parseFloat (ws @ sg @ ip @ fractionString fr @ exponentString ex @ rest) =
          parseFloat (sg @ ip @ fractionString fr @ exponentString ex)"
    by (elim conjE)
  from main have inf: "\<forall>ws sg rest.
        list_all isWhiteSpace ws \<and> isSign sg \<longrightarrow>
        parseFloat (ws @ sg @ ''Infinity'' @ rest) = (if sg = ''-'' then NInf else PInf)"
    by (elim conjE)
  from all [rule_format, OF h1]
  have a: "parseFloat '' -12.5e+1+ abc'' = Fin (- 125) \<and> parseFloat ''-12.5e+1'' = Fin (- 125)"
    unfolding t1 t2 v1 by (elim conjE) (simp only: simp_thms)
  from all [rule_format, OF h4, THEN conjunct1]
  have d: "parseFloat ''1.5e+x'' = Fin (3 / 2)" unfolding t4 v4 .
  from run [rule_format, OF h2]
  have b: "parseFloat (''12'' @ CHR ''+'' # ''abc'') = Fin 12" unfolding v2 .
  from inf [rule_format, OF h3]
  have c: "parseFloat '' -Infinity and beyond'' = NInf" unfolding t3 by simp
  from h1 h2 h3 h4 a b c d show ?thesis by (elim conjE, intro conjI) assumption+
qed

text \<open>
  Claim C4 says that the bedroom option \<open>5+\<close> parses to NaN.  It does not: the result is
  the number 5.
\<close>

theorem five_plus_not_NaN: "\<not> (parseFloat ''5+'' = NaN)"
  by (simp add: parse_defs)

text \<open>
  Claim C4, amended.  A bedroom count of \<open>5+\<close> parses to 5, not to NaN, and contributes
  5 times 25000 to the valuation.
\<close>

theorem bedroom_five_plus:
  "bedroomCount p = ''5+'' \<Longrightarrow>
     bedroomValue p = Fin 5 \<and> bedroomValue p \<noteq> NaN \<and> bedroomComponent p = Fin 125000"
  by (simp add: bedroomComponent_def bedroomValue_def BEDROOM_INCREMENT_def) (simp add: parse_defs)

theorem bedroom_five_plus_witness:
  "bedroomCount (specExample\<lparr>bedroomCount := ''5+''\<rparr>) = ''5+'' \<and>
   bedroomComponent (specExample\<lparr>bedroomCount := ''5+''\<rparr>) = Fin 125000"
  using bedroom_five_plus [of "specExample\<lparr>bedroomCount := ''5+''\<rparr>"] by simp

subsection \<open>The location factor\<close>





subsection \<open>The age component\<close>

lemma ageComponent_Fin:
  "parseFloat (constructionYear p) = Fin y \<Longrightarrow>
     ageComponent p = Fin (max 0 ((2025 - y) * 500))"
  by (simp add: ageComponent_def propertyAge_def js_sub_def constant_defs)

lemma ageComponent_sign: "0 \<le> js_sign (ageComponent p)"
  by (cases "parseFloat (constructionYear p)")
     (simp_all add: ageComponent_def propertyAge_def js_sub_def constant_defs max_def)

lemma parse_2030: "parseFloat ''2030'' = Fin 2030"
  by (simp add: parse_defs)

text \<open>
  Claim C6.  When the construction year parses to a number \<open>y\<close>, the age component is
  the larger of 0 and \<open>(2025 - y) * 500\<close>; it is 0 when \<open>y\<close> is greater than 2025 (also
  when the year parses to infinity), and it is never negative.
\<close>

theorem ageComponent_clamped:
  "(parseFloat (constructionYear p) = Fin y \<longrightarrow>
      ageComponent p = Fin (max 0 ((2025 - y) * 500)) \<and>
      (2025 < y \<longrightarrow> ageComponent p = Fin 0)) \<and>
   (parseFloat (constructionYear p) = PInf \<longrightarrow> ageComponent p = Fin 0) \<and>
   0 \<le> js_sign (ageComponent p)"
proof (intro conjI impI)
  assume y: "parseFloat (constructionYear p) = Fin y"
  then show "ageComponent p = Fin (max 0 ((2025 - y) * 500))" by (rule ageComponent_Fin)
  assume "2025 < y"
  with y show "ageComponent p = Fin 0" by (simp add: ageComponent_Fin)
next
  assume "parseFloat (constructionYear p) = PInf"
  then show "ageComponent p = Fin 0"
    by (simp add: ageComponent_def propertyAge_def js_sub_def constant_defs)
next
  show "0 \<le> js_sign (ageComponent p)" by (rule ageComponent_sign)
qed

theorem ageComponent_clamped_witness:
  "parseFloat (constructionYear (specExample\<lparr>constructionYear := ''2030''\<rparr>)) = Fin 2030 \<and>
   (2025::real) < 2030 \<and>
   ageComponent (specExample\<lparr>constructionYear := ''2030''\<rparr>) = Fin 0"
proof -
  have h: "parseFloat (constructionYear (specExample\<lparr>constructionYear := ''2030''\<rparr>)) = Fin 2030"
    by (simp add: parse_2030)
  moreover have "(2025::real) < 2030" by simp
  ultimately show ?thesis
    using ageComponent_clamped [of "specExample\<lparr>constructionYear := ''2030''\<rparr>" 2030]
    by blast
qed

subsection \<open>NaN from a failed parse\<close>

lemma strUnsignedDecimal_None_iff:
  "strUnsignedDecimal u = None \<longleftrightarrow>
     \<not> (case u of
          [] \<Rightarrow> False
        | c # r \<Rightarrow> isDigit c \<or>
                   (c = CHR ''.'' \<and> (case r of [] \<Rightarrow> False | d # _ \<Rightarrow> isDigit d)))"
proof (cases u)
  case Nil
  then show ?thesis by (simp add: strUnsignedDecimal_def)
next
  case (Cons c r)
  show ?thesis
  proof (cases "isDigit c")
    case True
    then show ?thesis by (simp add: Cons strUnsignedDecimal_def Let_def split: prod.splits)
  next
    case False
    then show ?thesis
      by (cases r) (simp_all add: Cons strUnsignedDecimal_def Let_def)
  qed
qed

lemma parseFloat_NaN_iff: "parseFloat s = NaN \<longleftrightarrow> \<not> leadingNumericPrefix s"
proof -
  obtain neg u where su: "splitSign (dropWhile isWhiteSpace s) = (neg, u)"
    by (cases "splitSign (dropWhile isWhiteSpace s)")
  show ?thesis
  proof (cases "take 8 u = ''Infinity''")
    case True
    then show ?thesis by (simp add: parseFloat_def leadingNumericPrefix_def su)
  next
    case False
    have "parseFloat s = NaN \<longleftrightarrow> strUnsignedDecimal u = None"
      using False by (simp add: parseFloat_def su split: option.splits)
    then show ?thesis
      using False by (simp add: strUnsignedDecimal_None_iff leadingNumericPrefix_def su)
  qed
qed

lemma baseValuation_NaN:
  assumes "parseFloat (livingArea p) = NaN \<or> parseFloat (bedroomCount p) = NaN \<or>
           parseFloat (bathroomCount p) = NaN \<or> parseFloat (constructionYear p) = NaN \<or>
           parseFloat (parkingSpaces p) = NaN"
  shows "baseValuation p = NaN"
  using assms by (auto simp: baseValuation_def component_defs)

lemma finalValuation_NaN:
  "baseValuation p = NaN \<Longrightarrow>
     adjustedValuation p = NaN \<and> volatilityRange p random = NaN \<and> finalValuation p random = NaN"
  by (simp add: adjustedValuation_def volatilityRange_def finalValuation_def)

subsection \<open>Edits, submission and the pending computation\<close>

text \<open>
  Claim C8.  A change of any field to any value stores the value and clears the stored
  result in the same step, leaving the calculating flag and the pending callbacks as
  they were; so right after an edit no result is displayed, whatever happened before.
\<close>

theorem edit_clears_result:
  "estimatedValue (handleFieldChange name v s) = None \<and>
   \<not> resultDisplayed (step (Change name v) s) \<and>
   fieldValue name (propertyData (handleFieldChange name v s)) = v \<and>
   isCalculating (handleFieldChange name v s) = isCalculating s \<and>
   pendingTimers (handleFieldChange name v s) = pendingTimers s \<and>
   \<not> resultDisplayed (run (es @ [Change name v]) s)"
  by (cases name) (simp_all add: handleFieldChange_def clearValuation_def resultDisplayed_def run_def)

theorem edit_clears_result_witness:
  "resultDisplayed (initialState\<lparr>estimatedValue := Some (Fin 609000)\<rparr>) \<and>
   \<not> resultDisplayed
       (step (Change LivingArea ''2100'') (initialState\<lparr>estimatedValue := Some (Fin 609000)\<rparr>)) \<and>
   livingArea (propertyData
       (handleFieldChange LivingArea ''2100'' (initialState\<lparr>estimatedValue := Some (Fin 609000)\<rparr>)))
     = ''2100''"
  using edit_clears_result
    [of LivingArea "''2100''" "initialState\<lparr>estimatedValue := Some (Fin 609000)\<rparr>" "[]"]
  by (simp add: resultDisplayed_def)

lemma run_Cons: "run (e # es) s = run es (step e s)"
  by (simp add: run_def)

lemma run_invariant:
  assumes "list_all deliverable es" "P s"
    and "\<And>e s. deliverable e \<Longrightarrow> P s \<Longrightarrow> P (step e s)"
  shows "P (run es s)"
  using assms(1,2)
proof (induction es arbitrary: s)
  case Nil
  then show ?case by (simp add: run_def)
next
  case (Cons e es)
  then show ?case by (simp add: run_Cons assms(3))
qed

lemma oneInFlight_step: "oneInFlight s \<Longrightarrow> oneInFlight (step e s)"
proof (cases e)
  case (Change name v)
  assume "oneInFlight s"
  then show ?thesis
    by (simp add: Change oneInFlight_def handleFieldChange_def clearValuation_def)
next
  case Submit
  assume "oneInFlight s"
  then show ?thesis
    by (auto simp: Submit oneInFlight_def submitDisabled_def handleFormSubmission_def
        executeValuationAlgorithm_def)
next
  case (TimerExpires random)
  assume "oneInFlight s"
  then show ?thesis
    by (cases "pendingTimers s") (auto simp: TimerExpires oneInFlight_def timeoutCallback_def)
next
  case Reset
  assume "oneInFlight s"
  then show ?thesis by (simp add: Reset oneInFlight_def)
qed

lemma oneInFlight_run: "list_all deliverable es \<Longrightarrow> oneInFlight (run es initialState)"
  by (rule run_invariant [where P = oneInFlight])
     (simp_all add: oneInFlight_step, simp add: oneInFlight_def initialState_def)

lemma submit_disabled_noop: "submitDisabled s \<Longrightarrow> step Submit s = s"
  by simp

lemma submit_enabled:
  "\<not> submitDisabled s \<Longrightarrow>
     step Submit s = s\<lparr>isCalculating := True, pendingTimers := pendingTimers s @ [propertyData s]\<rparr>"
  by (simp add: submitDisabled_def handleFormSubmission_def executeValuationAlgorithm_def)

lemma submit_changes: "step Submit s \<noteq> s \<Longrightarrow> \<not> submitDisabled s"
  by (auto simp: submit_disabled_noop)

text \<open>
  The handler itself does not look at the calculating flag; the gate is the \<open>disabled\<close>
  attribute of the submit control.
\<close>

lemma handleFormSubmission_not_gated:
  "isValid (validationStatus s) \<Longrightarrow> isCalculating s \<Longrightarrow>
     pendingTimers (handleFormSubmission s) = pendingTimers s @ [propertyData s]"
  by (simp add: handleFormSubmission_def executeValuationAlgorithm_def)

text \<open>
  Claim C9.  While a computation is pending, pressing submit changes nothing.  When some
  field is empty, pressing submit changes nothing either (and neither does the handler).
  A press that does change the state happens with all six fields non-empty and nothing
  pending, and schedules one computation on the current attributes.  In every state of
  a session at most one computation is pending, the calculating flag is set exactly
  then, and the expiry of the timer ends it.
\<close>

theorem submit_gated:
  "(isCalculating s \<longrightarrow> step Submit s = s) \<and>
   ((\<exists>f. fieldValue f (propertyData s) = '''') \<longrightarrow>
       step Submit s = s \<and> handleFormSubmission s = s) \<and>
   (step Submit s \<noteq> s \<longrightarrow>
       (\<forall>f. fieldValue f (propertyData s) \<noteq> '''') \<and> \<not> isCalculating s \<and>
       step Submit s =
         s\<lparr>isCalculating := True, pendingTimers := pendingTimers s @ [propertyData s]\<rparr>) \<and>
   (list_all deliverable es \<longrightarrow>
       length (pendingTimers (run es initialState)) \<le> 1 \<and>
       (isCalculating (run es initialState) \<longleftrightarrow> pendingTimers (run es initialState) \<noteq> []) \<and>
       (isCalculating (run es initialState) \<longrightarrow>
          \<not> isCalculating (step (TimerExpires random) (run es initialState)) \<and>
          pendingTimers (step (TimerExpires random) (run es initialState)) = []))"
proof (intro conjI impI)
  assume "isCalculating s"
  then show "step Submit s = s" by (simp add: submitDisabled_def)
next
  assume "\<exists>f. fieldValue f (propertyData s) = ''''"
  then have "\<not> isValid (validationStatus s)" by (simp add: validationStatus_def isValid_iff)
  then show "step Submit s = s" and "handleFormSubmission s = s"
    by (simp_all add: submitDisabled_def handleFormSubmission_def)
next
  assume ch: "step Submit s \<noteq> s"
  then have en: "\<not> submitDisabled s" by (rule submit_changes)
  then show "\<forall>f. fieldValue f (propertyData s) \<noteq> ''''"
    by (simp add: submitDisabled_def validationStatus_def isValid_iff)
  from en show "\<not> isCalculating s" by (simp add: submitDisabled_def)
  from en show "step Submit s =
         s\<lparr>isCalculating := True, pendingTimers := pendingTimers s @ [propertyData s]\<rparr>"
    by (rule submit_enabled)
next
  assume "list_all deliverable es"
  then have inv: "oneInFlight (run es initialState)" by (rule oneInFlight_run)
  then show "length (pendingTimers (run es initialState)) \<le> 1"
    and "isCalculating (run es initialState) \<longleftrightarrow> pendingTimers (run es initialState) \<noteq> []"
    by (simp_all add: oneInFlight_def)
  assume "isCalculating (run es initialState)"
  from oneInFlight_step [OF inv, of "TimerExpires random"] inv this
  show "\<not> isCalculating (step (TimerExpires random) (run es initialState))"
    and "pendingTimers (step (TimerExpires random) (run es initialState)) = []"
    by (auto simp: oneInFlight_def timeoutCallback_def split: list.splits)
qed

lemma run_fillAndSubmit:
  "run fillAndSubmit initialState =
     \<lparr>propertyData = specExample, estimatedValue = None, isCalculating = True,
      pendingTimers = [specExample]\<rparr>"
  by (simp add: fillAndSubmit_def run_def initialState_def initialPropertyData_def
      handleFieldChange_def clearValuation_def submitDisabled_def validationStatus_def
      validateFormCompletion_def validationMap_def js_not_string_def handleFormSubmission_def
      executeValuationAlgorithm_def specExample_def)

theorem submit_gated_witness:
  "list_all deliverable fillAndSubmit \<and> isCalculating (run fillAndSubmit initialState) \<and>
   step Submit (run fillAndSubmit initialState) = run fillAndSubmit initialState \<and>
   (\<exists>f. fieldValue f (propertyData initialState) = '''') \<and>
   step Submit initialState = initialState \<and>
   step Submit (run (butlast fillAndSubmit) initialState) \<noteq> run (butlast fillAndSubmit) initialState \<and>
   pendingTimers (step (TimerExpires 0) (run fillAndSubmit initialState)) = []"
proof -
  have d: "list_all deliverable fillAndSubmit" by (simp add: fillAndSubmit_def)
  have c: "isCalculating (run fillAndSubmit initialState)" by (simp add: run_fillAndSubmit)
  have e: "\<exists>f. fieldValue f (propertyData initialState) = ''''"
    by (rule exI [of _ LivingArea]) (simp add: initialState_def initialPropertyData_def)
  have b: "step Submit (run (butlast fillAndSubmit) initialState) \<noteq> run (butlast fillAndSubmit) initialState"
    by (simp add: fillAndSubmit_def run_def initialState_def initialPropertyData_def
      handleFieldChange_def clearValuation_def submitDisabled_def validationStatus_def
      validateFormCompletion_def validationMap_def js_not_string_def handleFormSubmission_def
      executeValuationAlgorithm_def)
  from submit_gated [of "run fillAndSubmit initialState" fillAndSubmit 0]
       submit_gated [of initialState "[]" 0] d c e b
  show ?thesis by blast
qed

subsection \<open>The parking value\<close>

lemma parkingInvariant_step:
  assumes "deliverable e" "parkingInvariant s"
  shows "parkingInvariant (step e s)"
proof (cases e)
  case (Change name v)
  with assms show ?thesis
    by (cases name)
       (auto simp: parkingInvariant_def handleFieldChange_def clearValuation_def)
next
  case Submit
  show ?thesis
  proof (cases "submitDisabled s")
    case True
    with assms show ?thesis by (simp add: Submit)
  next
    case False
    then have "fieldValue ParkingSpaces (propertyData s) \<noteq> ''''"
      unfolding submitDisabled_def validationStatus_def isValid_iff by blast
    with assms(2) show ?thesis
      unfolding Submit submit_enabled [OF False] by (auto simp: parkingInvariant_def)
  qed
next
  case (TimerExpires random)
  with assms show ?thesis
    by (cases "pendingTimers s") (auto simp: parkingInvariant_def timeoutCallback_def)
next
  case Reset
  with assms show ?thesis
    by (simp add: parkingInvariant_def resetForm_def initialPropertyData_def)
qed

lemma parkingInvariant_run: "list_all deliverable es \<Longrightarrow> parkingInvariant (run es initialState)"
  by (rule run_invariant [where P = parkingInvariant])
     (simp_all add: parkingInvariant_step,
      simp add: parkingInvariant_def initialState_def initialPropertyData_def)

text \<open>
  Claim C10.  In every state of a session the stored parking value is one of the empty
  string, 0, 1, 2 and 3, never \<open>3+\<close>, and every scheduled computation holds one of 0, 1,
  2 and 3: the select element offers the value 3 for the option shown as \<open>3+\<close>, and the
  initial value and the value after \<open>resetForm\<close> are the empty string.
\<close>

theorem parkingSpaces_never_three_plus:
  "(list_all deliverable es \<longrightarrow>
      parkingSpaces (propertyData (run es initialState)) \<in> set ['''', ''0'', ''1'', ''2'', ''3''] \<and>
      parkingSpaces (propertyData (run es initialState)) \<noteq> ''3+'' \<and>
      (\<forall>p \<in> set (pendingTimers (run es initialState)).
          parkingSpaces p \<in> set [''0'', ''1'', ''2'', ''3''] \<and> parkingSpaces p \<noteq> ''3+'')) \<and>
   selectValues ParkingSpaces = Some ['''', ''0'', ''1'', ''2'', ''3''] \<and>
   \<not> deliverable (Change ParkingSpaces ''3+'') \<and>
   parkingSpaces (propertyData initialState) = '''' \<and>
   parkingSpaces (resetForm q) = ''''"
proof (intro conjI impI)
  assume "list_all deliverable es"
  then have inv: "parkingInvariant (run es initialState)" by (rule parkingInvariant_run)
  then show "parkingSpaces (propertyData (run es initialState)) \<in> set ['''', ''0'', ''1'', ''2'', ''3'']"
    by (simp add: parkingInvariant_def)
  from inv show "parkingSpaces (propertyData (run es initialState)) \<noteq> ''3+''"
    by (auto simp: parkingInvariant_def)
  from inv show "\<forall>p \<in> set (pendingTimers (run es initialState)).
          parkingSpaces p \<in> set [''0'', ''1'', ''2'', ''3''] \<and> parkingSpaces p \<noteq> ''3+''"
    by (auto simp: parkingInvariant_def)
qed (simp_all add: initialState_def initialPropertyData_def resetForm_def)

theorem parkingSpaces_never_three_plus_witness:
  "list_all deliverable fillAndSubmit \<and>
   parkingSpaces (propertyData (run fillAndSubmit initialState)) = ''2'' \<and>
   parkingSpaces (propertyData (run fillAndSubmit initialState)) \<noteq> ''3+'' \<and>
   specExample \<in> set (pendingTimers (run fillAndSubmit initialState)) \<and>
   parkingSpaces specExample \<noteq> ''3+''"
proof -
  have d: "list_all deliverable fillAndSubmit" by (simp add: fillAndSubmit_def)
  have v: "parkingSpaces (propertyData (run fillAndSubmit initialState)) = ''2''"
    by (simp add: run_fillAndSubmit specExample_def)
  have m: "specExample \<in> set (pendingTimers (run fillAndSubmit initialState))"
    by (simp add: run_fillAndSubmit)
  from d v m parkingSpaces_never_three_plus [of fillAndSubmit] show ?thesis by blast
qed

subsection \<open>What the form hands to the calculation\<close>

lemma run_invariant_events:
  assumes "list_all D es" "P s"
    and "\<And>e s. D e \<Longrightarrow> P s \<Longrightarrow> P (step e s)"
  shows "P (run es s)"
  using assms(1,2)
proof (induction es arbitrary: s)
  case Nil
  then show ?case by (simp add: run_def)
next
  case (Cons e es)
  then show ?case by (simp add: run_Cons assms(3))
qed

lemma fieldValue_updateField:
  "fieldValue g (updateField f v p) = (if g = f then v else fieldValue g p)"
  by (cases f; cases g) simp_all

lemma formDeliverable_deliverable: "formDeliverable e \<Longrightarrow> deliverable e"
  by (cases e) (auto split: option.splits)





lemma validFloatingPointNumber_prefix:
  assumes "validFloatingPointNumber v"
  shows "leadingNumericPrefix v"
proof -
  define u where "u = (case v of [] \<Rightarrow> [] | c # r \<Rightarrow> if c = CHR ''-'' then r else v)"
  have body: "case u of [] \<Rightarrow> False
              | c # r \<Rightarrow> isDigit c \<or> (c = CHR ''.'' \<and> (case r of [] \<Rightarrow> False | d # _ \<Rightarrow> isDigit d))"
  proof (cases u)
    case Nil
    with assms show ?thesis
      by (simp add: validFloatingPointNumber_def u_def [symmetric])
  next
    case (Cons c r)
    show ?thesis
    proof (cases "isDigit c")
      case True
      then show ?thesis by (simp add: Cons)
    next
      case False
      with assms Cons show ?thesis
        by (cases r)
           (auto simp: validFloatingPointNumber_def u_def [symmetric] Let_def split: if_splits)
    qed
  qed
  then obtain c r where uc: "u = c # r" and c: "isDigit c \<or> c = CHR ''.''"
    by (cases u) auto
  from c have cf: "c \<noteq> CHR ''-''" "c \<noteq> CHR ''+''" "\<not> isWhiteSpace c"
    by (auto simp: isDigit_def isWhiteSpace_def)
  show ?thesis
  proof (cases v)
    case Nil
    with uc show ?thesis by (simp add: u_def)
  next
    case (Cons a w)
    show ?thesis
    proof (cases "a = CHR ''-''")
      case True
      then have "u = w" by (simp add: u_def Cons)
      with body True show ?thesis
        by (simp add: leadingNumericPrefix_def Cons splitSign_def isWhiteSpace_def)
    next
      case False
      then have "u = v" by (simp add: u_def Cons)
      with uc Cons have "a = c" by simp
      with body cf \<open>u = v\<close> show ?thesis
        by (simp add: leadingNumericPrefix_def Cons splitSign_def)
    qed
  qed
qed

lemma numberInputValue_fixed:
  "numberInputValue v = v \<Longrightarrow> v = [] \<or> leadingNumericPrefix v"
  by (auto simp: numberInputValue_def validFloatingPointNumber_prefix split: if_splits)

lemma select_option_prefix:
  assumes "f \<in> set parsedFields" "selectValues f = Some vs" "v \<in> set vs"
  shows "v = [] \<or> leadingNumericPrefix v"
  using assms
  by (cases f)
     (auto simp: parsedFields_def leadingNumericPrefix_def splitSign_def isWhiteSpace_def
        isDigit_def)

lemma change_value_prefix:
  assumes "formDeliverable (Change f v)" "f \<in> set parsedFields"
  shows "v = [] \<or> leadingNumericPrefix v"
proof (cases "selectValues f")
  case None
  with assms(1) show ?thesis by (simp add: numberInputValue_fixed)
next
  case (Some vs)
  with assms(1) have "v \<in> set vs" by simp
  with assms(2) Some show ?thesis by (rule select_option_prefix)
qed

lemma valid_numericAttributes:
  assumes "isValid (validateFormCompletion p)"
    and "list_all (\<lambda>f. fieldValue f p = [] \<or> leadingNumericPrefix (fieldValue f p)) parsedFields"
  shows "numericAttributes p"
proof -
  from assms(1) have "\<forall>f. fieldValue f p \<noteq> []" by (simp add: isValid_iff)
  with assms(2) show ?thesis
    by (simp add: numericAttributes_def list_all_iff)
qed

lemma numericInvariant_step:
  assumes "formDeliverable e" "numericInvariant s"
  shows "numericInvariant (step e s)"
proof (cases e)
  case (Change name v)
  have "fieldValue f (updateField name v (propertyData s)) = [] \<or>
        leadingNumericPrefix (fieldValue f (updateField name v (propertyData s)))"
    if f: "f \<in> set parsedFields" for f
  proof (cases "f = name")
    case True
    with assms(1) f show ?thesis
      by (simp add: fieldValue_updateField Change change_value_prefix)
  next
    case False
    with assms(2) f show ?thesis
      by (simp add: fieldValue_updateField numericInvariant_def list_all_iff)
  qed
  with assms(2) show ?thesis
    by (simp add: Change numericInvariant_def handleFieldChange_def clearValuation_def
        list_all_iff)
next
  case Submit
  show ?thesis
  proof (cases "submitDisabled s")
    case True
    with assms(2) show ?thesis by (simp add: Submit)
  next
    case False
    then have "isValid (validateFormCompletion (propertyData s))"
      by (simp add: submitDisabled_def validationStatus_def)
    with assms(2) have "numericAttributes (propertyData s)"
      by (intro valid_numericAttributes) (simp_all add: numericInvariant_def)
    with assms(2) show ?thesis
      unfolding Submit submit_enabled [OF False] by (simp add: numericInvariant_def)
  qed
next
  case (TimerExpires random)
  with assms(2) show ?thesis
    by (cases "pendingTimers s") (simp_all add: numericInvariant_def timeoutCallback_def)
next
  case Reset
  with assms(2) show ?thesis
    by (simp add: numericInvariant_def resetForm_def initialPropertyData_def parsedFields_def)
qed

lemma numericInvariant_run:
  "list_all formDeliverable es \<Longrightarrow> numericInvariant (run es initialState)"
  by (rule run_invariant_events [where P = numericInvariant and D = formDeliverable])
     (simp_all add: numericInvariant_step,
      simp add: numericInvariant_def initialState_def initialPropertyData_def parsedFields_def)

lemma numericAttributes_iff:
  "numericAttributes p \<longleftrightarrow>
     leadingNumericPrefix (livingArea p) \<and> leadingNumericPrefix (bedroomCount p) \<and>
     leadingNumericPrefix (bathroomCount p) \<and> leadingNumericPrefix (constructionYear p) \<and>
     leadingNumericPrefix (parkingSpaces p)"
  by (simp add: numericAttributes_def parsedFields_def)

text \<open>
  Claim C7 says that nothing on the submission path rejects or guards an attribute
  without a leading numeric prefix.  The form does: letters entered for the living area
  are not what the number input hands over; it hands over the empty value, with which
  the submit control is disabled, so nothing is scheduled and nothing is displayed.
\<close>

theorem malformed_text_rejected:
  "\<not> leadingNumericPrefix ''abc'' \<and>
   numberInputValue ''abc'' = '''' \<and>
   \<not> formDeliverable (Change LivingArea ''abc'') \<and>
   list_all formDeliverable malformedAttempt \<and>
   pendingTimers (run malformedAttempt initialState) = [] \<and>
   estimatedValue (run malformedAttempt initialState) = None \<and>
   \<not> resultDisplayed (run malformedAttempt initialState)"
proof -
  have n: "numberInputValue ''abc'' = ''''"
    by (simp add: numberInputValue_def validFloatingPointNumber_def isDigit_def)
  have v: "numberInputValue v = v" if "v \<in> set ['''', ''2010'']" for v
    using that
    by (auto simp: numberInputValue_def validFloatingPointNumber_def validExponent_def isDigit_def)
  have r: "run malformedAttempt initialState =
     \<lparr>propertyData = specExample\<lparr>livingArea := ''''\<rparr>, estimatedValue = None,
      isCalculating = False, pendingTimers = []\<rparr>"
    by (simp add: malformedAttempt_def n run_def initialState_def initialPropertyData_def
      handleFieldChange_def clearValuation_def submitDisabled_def validationStatus_def
      validateFormCompletion_def validationMap_def js_not_string_def handleFormSubmission_def
      executeValuationAlgorithm_def specExample_def)
  have "\<not> leadingNumericPrefix ''abc''"
    by (simp add: leadingNumericPrefix_def splitSign_def isWhiteSpace_def isDigit_def)
  moreover have "\<not> formDeliverable (Change LivingArea ''abc'')" by (simp add: n)
  moreover have "list_all formDeliverable malformedAttempt"
    by (simp add: malformedAttempt_def n v)
  ultimately show ?thesis by (simp add: n r resultDisplayed_def)
qed

text \<open>
  Claim C7, amended.  A string without a leading numeric prefix parses to NaN.  When one
  of the five parsed attributes handed to the calculation is such a string, the base
  valuation, the adjusted valuation, the volatility and the final valuation are all
  NaN, and the callback stores NaN as the result, which is displayed; neither the
  calculation nor \<open>handleFormSubmission\<close>, which passes on the attributes of a complete
  form as they are, checks for it.  (The zone is looked up, never parsed.)  The form
  itself never hands over such a string: number inputs deliver the empty value or a
  valid number, every option of the selects starts with a digit, and an empty field
  blocks the submission; so in every session the five parsed attributes of each
  scheduled calculation have a leading numeric prefix and none parses to NaN.
\<close>

theorem NaN_propagates_form_guards:
  "(\<forall>x. \<not> leadingNumericPrefix x \<longrightarrow> parseFloat x = NaN) \<and>
   (\<not> leadingNumericPrefix (livingArea p) \<or> \<not> leadingNumericPrefix (bedroomCount p) \<or>
    \<not> leadingNumericPrefix (bathroomCount p) \<or> \<not> leadingNumericPrefix (constructionYear p) \<or>
    \<not> leadingNumericPrefix (parkingSpaces p) \<longrightarrow>
      baseValuation p = NaN \<and> adjustedValuation p = NaN \<and>
      volatilityRange p random = NaN \<and> finalValuation p random = NaN \<and>
      estimatedValue (timeoutCallback p random s) = Some NaN \<and>
      resultDisplayed (timeoutCallback p random s)) \<and>
   (isValid (validationStatus s) \<longrightarrow>
      handleFormSubmission s = executeValuationAlgorithm (propertyData s) s \<and>
      last (pendingTimers (handleFormSubmission s)) = propertyData s) \<and>
   (list_all formDeliverable es \<longrightarrow>
      (\<forall>q \<in> set (pendingTimers (run es initialState)).
          numericAttributes q \<and>
          parseFloat (livingArea q) \<noteq> NaN \<and> parseFloat (bedroomCount q) \<noteq> NaN \<and>
          parseFloat (bathroomCount q) \<noteq> NaN \<and> parseFloat (constructionYear q) \<noteq> NaN \<and>
          parseFloat (parkingSpaces q) \<noteq> NaN))"
proof (intro conjI impI allI)
  fix x assume "\<not> leadingNumericPrefix x"
  then show "parseFloat x = NaN" by (simp add: parseFloat_NaN_iff)
next
  assume a: "\<not> leadingNumericPrefix (livingArea p) \<or> \<not> leadingNumericPrefix (bedroomCount p) \<or>
    \<not> leadingNumericPrefix (bathroomCount p) \<or> \<not> leadingNumericPrefix (constructionYear p) \<or>
    \<not> leadingNumericPrefix (parkingSpaces p)"
  then show b: "baseValuation p = NaN"
    by (intro baseValuation_NaN) (simp add: parseFloat_NaN_iff)
  note f = finalValuation_NaN [OF b, of random]
  from f show "adjustedValuation p = NaN" "volatilityRange p random = NaN"
    "finalValuation p random = NaN" by simp_all
  from f show "estimatedValue (timeoutCallback p random s) = Some NaN"
    "resultDisplayed (timeoutCallback p random s)"
    by (simp_all add: timeoutCallback_def resultDisplayed_def)
next
  assume "isValid (validationStatus s)"
  then show "handleFormSubmission s = executeValuationAlgorithm (propertyData s) s"
    "last (pendingTimers (handleFormSubmission s)) = propertyData s"
    by (simp_all add: handleFormSubmission_def executeValuationAlgorithm_def)
next
  assume "list_all formDeliverable es"
  then have inv: "numericInvariant (run es initialState)" by (rule numericInvariant_run)
  show "\<forall>q \<in> set (pendingTimers (run es initialState)).
          numericAttributes q \<and>
          parseFloat (livingArea q) \<noteq> NaN \<and> parseFloat (bedroomCount q) \<noteq> NaN \<and>
          parseFloat (bathroomCount q) \<noteq> NaN \<and> parseFloat (constructionYear q) \<noteq> NaN \<and>
          parseFloat (parkingSpaces q) \<noteq> NaN"
  proof
    fix q assume "q \<in> set (pendingTimers (run es initialState))"
    with inv have n: "numericAttributes q" by (simp add: numericInvariant_def list_all_iff)
    then show "numericAttributes q \<and>
          parseFloat (livingArea q) \<noteq> NaN \<and> parseFloat (bedroomCount q) \<noteq> NaN \<and>
          parseFloat (bathroomCount q) \<noteq> NaN \<and> parseFloat (constructionYear q) \<noteq> NaN \<and>
          parseFloat (parkingSpaces q) \<noteq> NaN"
      by (simp add: numericAttributes_iff parseFloat_NaN_iff)
  qed
qed

theorem NaN_propagates_form_guards_witness:
  "\<not> leadingNumericPrefix (livingArea (specExample\<lparr>livingArea := ''abc''\<rparr>)) \<and>
   finalValuation (specExample\<lparr>livingArea := ''abc''\<rparr>) 0 = NaN \<and>
   estimatedValue (timeoutCallback (specExample\<lparr>livingArea := ''abc''\<rparr>) 0 initialState) = Some NaN \<and>
   list_all formDeliverable fillAndSubmit \<and>
   specExample \<in> set (pendingTimers (run fillAndSubmit initialState)) \<and>
   numericAttributes specExample \<and> parseFloat (livingArea specExample) \<noteq> NaN"
proof -
  let ?p = "specExample\<lparr>livingArea := ''abc''\<rparr>"
  have h: "\<not> leadingNumericPrefix (livingArea ?p)"
    by (simp add: leadingNumericPrefix_def splitSign_def isWhiteSpace_def isDigit_def)
  have v: "numberInputValue v = v" if "v \<in> set [''2000'', ''2010'']" for v
    using that
    by (auto simp: numberInputValue_def validFloatingPointNumber_def validExponent_def isDigit_def)
  have d: "list_all formDeliverable fillAndSubmit" by (simp add: fillAndSubmit_def v)
  have m: "specExample \<in> set (pendingTimers (run fillAndSubmit initialState))"
    by (simp add: run_fillAndSubmit)
  from NaN_propagates_form_guards [of ?p 0 initialState fillAndSubmit] h d m
  show ?thesis by blast
qed

end
